theory Spec2Isabelle
  imports Main
begin

section \<open>JavaScript values used by the sources\<close>

text \<open>
  A thrown value. Both handlers read \<open>err.message || ""\<close>, so only the message
  matters; a thrown value without a message has \<open>None\<close>.
\<close>

datatype JsError = Error (message: "string option")

definition messageOrEmpty :: "JsError \<Rightarrow> string" where
  "messageOrEmpty err = (case message err of None \<Rightarrow> [] | Some m \<Rightarrow> m)"

text \<open>\<open>x || d\<close> on an optional string: \<open>undefined\<close> and the empty string are falsy.\<close>

definition orElse :: "string option \<Rightarrow> string \<Rightarrow> string" where
  "orElse x d = (case x of None \<Rightarrow> d | Some t \<Rightarrow> if t = [] then d else t)"

definition truthy :: "string option \<Rightarrow> bool" where
  "truthy x = (case x of None \<Rightarrow> False | Some t \<Rightarrow> t \<noteq> [])"

text \<open>\<open>String.prototype.split\<close> with a one-character separator.\<close>

fun js_split :: "char \<Rightarrow> string \<Rightarrow> string list" where
  "js_split sep [] = [[]]"
| "js_split sep (c # cs) =
     (if c = sep then [] # js_split sep cs
      else (case js_split sep cs of
              [] \<Rightarrow> [[c]]
            | p # ps \<Rightarrow> (c # p) # ps))"

text \<open>Indexing an array: out of range gives \<open>undefined\<close>.\<close>

definition at_index :: "'a list \<Rightarrow> nat \<Rightarrow> 'a option" where
  "at_index xs i = (if i < length xs then Some (xs ! i) else None)"

text \<open>Indexing with a number that may be negative, as the result of \<open>%\<close> may be.\<close>

definition at_int :: "'a list \<Rightarrow> int \<Rightarrow> 'a option" where
  "at_int xs i = (if 0 \<le> i then at_index xs (nat i) else None)"

text \<open>The remainder operator \<open>%\<close>: the sign of the result is the sign of the dividend.\<close>

definition js_rem :: "int \<Rightarrow> int \<Rightarrow> int" where
  "js_rem a b = sgn a * (\<bar>a\<bar> mod \<bar>b\<bar>)"

text \<open>\<open>Array.prototype.indexOf\<close>: the first position of the element, or \<open>-1\<close>.\<close>

fun indexOf :: "'a list \<Rightarrow> 'a \<Rightarrow> int" where
  "indexOf [] x = -1"
| "indexOf (y # ys) x =
     (if y = x then 0
      else (let i = indexOf ys x in if i < 0 then -1 else i + 1))"

section \<open>types.ts\<close>

record StoryState =
  story_text :: string
  story_isGenerating :: bool
  story_error :: "string option"

record VideoState =
  video_url :: "string option"
  video_isGenerating :: bool
  video_progressMessage :: string
  video_error :: "string option"

text \<open>
  An \<open>AudioBuffer\<close> is produced by \<open>decodeAudioData\<close> of \<open>services/audioUtils\<close> and only
  passed around by the code modelled here; it is kept as the list of its samples.
\<close>

type_synonym AudioBuffer = "int list"

record AudioState =
  audio_isPlaying :: bool
  audio_isGenerating :: bool
  audio_audioBuffer :: "AudioBuffer option"

datatype AspectRatio = LANDSCAPE | PORTRAIT

section \<open>services/geminiService.ts\<close>

subsection \<open>generateStory\<close>

definition fallbackStory :: string where
  "fallbackStory = ''The mists of silence covered the land...''"

text \<open>
  \<open>generateContent\<close> is the remote call: it rejects with an error or resolves with a
  response whose \<open>text\<close> may be undefined. The image data may be undefined as well
  (it is the second piece of a split).
\<close>

definition generateStory ::
  "(string option \<Rightarrow> string \<Rightarrow> JsError + string option) \<Rightarrow> string option \<Rightarrow> string
     \<Rightarrow> JsError + string" where
  "generateStory generateContent imageBase64 mimeType =
     (case generateContent imageBase64 mimeType of
        Inl err \<Rightarrow> Inl err
      | Inr text \<Rightarrow> Inr (orElse text fallbackStory))"

subsection \<open>generateSpeech\<close>


subsection \<open>generateVeoVideo\<close>

record Video =
  uri :: "string option"

record GeneratedVideo =
  video_of :: "Video option"

record GenerateVideosResponse =
  generatedVideos :: "GeneratedVideo list option"

text \<open>An operation whose \<open>done\<close> is undefined counts as not done, as \<open>!operation.done\<close> does.\<close>

record VideoOperation =
  op_done :: bool
  op_response :: "GenerateVideosResponse option"

record FetchResponse =
  ok :: bool
  blob :: "JsError + string"

text \<open>
  What the function talks to: the call that creates the operation, the answer to the
  \<open>k\<close>-th \<open>getVideosOperation\<close> on it, \<open>fetch\<close>, \<open>URL.createObjectURL\<close> and the API key
  as the template string prints it.
\<close>

record VeoEnv =
  generateVideos :: "string option \<Rightarrow> string \<Rightarrow> AspectRatio \<Rightarrow> JsError + VideoOperation"
  getVideosOperation :: "nat \<Rightarrow> JsError + VideoOperation"
  fetch :: "string \<Rightarrow> JsError + FetchResponse"
  createObjectURL :: "string \<Rightarrow> string"
  API_KEY :: string

definition pollDelay :: nat where
  "pollDelay = 5000"

text \<open>
  The \<open>while (!operation.done)\<close> loop. \<open>k\<close> counts the polls made so far; each poll is
  one wait of \<open>pollDelay\<close> milliseconds followed by one \<open>getVideosOperation\<close>. A loop that
  never sees \<open>done\<close> has the value \<open>None\<close>.
\<close>

partial_function (option) pollLoop ::
  "(nat \<Rightarrow> JsError + VideoOperation) \<Rightarrow> nat \<Rightarrow> VideoOperation
     \<Rightarrow> (JsError + VideoOperation \<times> nat) option" where
  "pollLoop getOp k operation =
     (if \<not> op_done operation then
        (case getOp k of
           Inl err \<Rightarrow> Some (Inl err)
         | Inr operation' \<Rightarrow> pollLoop getOp (Suc k) operation')
      else Some (Inr (operation, k)))"

text \<open>\<open>operation.response?.generatedVideos?.[0]?.video?.uri\<close>\<close>

definition downloadLink :: "VideoOperation \<Rightarrow> string option" where
  "downloadLink operation =
     (case op_response operation of
        None \<Rightarrow> None
      | Some r \<Rightarrow>
          (case generatedVideos r of
             None \<Rightarrow> None
           | Some vs \<Rightarrow>
               (case at_index vs 0 of
                  None \<Rightarrow> None
                | Some g \<Rightarrow>
                    (case video_of g of
                       None \<Rightarrow> None
                     | Some v \<Rightarrow> uri v))))"

text \<open>The part after the loop: extract the link, fetch it, turn the blob into an object URL.\<close>

definition download :: "VeoEnv \<Rightarrow> VideoOperation \<Rightarrow> JsError + string" where
  "download env operation =
     (case downloadLink operation of
        None \<Rightarrow> Inl (Error (Some ''No video generated in response.''))
      | Some link \<Rightarrow>
          (if link = [] then Inl (Error (Some ''No video generated in response.''))
           else
             (case fetch env (link @ ''&key='' @ API_KEY env) of
                Inl err \<Rightarrow> Inl err
              | Inr videoResponse \<Rightarrow>
                  (if \<not> ok videoResponse
                   then Inl (Error (Some ''Failed to download generated video.''))
                   else
                     (case blob videoResponse of
                        Inl err \<Rightarrow> Inl err
                      | Inr videoBlob \<Rightarrow> Inr (createObjectURL env videoBlob))))))"

text \<open>
  The result is the settled promise; a URL comes with the time spent waiting between
  polls.
\<close>

definition generateVeoVideo ::
  "VeoEnv \<Rightarrow> string option \<Rightarrow> string \<Rightarrow> AspectRatio \<Rightarrow> (JsError + string \<times> nat) option" where
  "generateVeoVideo env imageBase64 mimeType ratio =
     (case generateVideos env imageBase64 mimeType ratio of
        Inl err \<Rightarrow> Some (Inl err)
      | Inr operation \<Rightarrow>
          (case pollLoop (getVideosOperation env) 0 operation of
             None \<Rightarrow> None
           | Some (Inl err) \<Rightarrow> Some (Inl err)
           | Some (Inr (operation', k)) \<Rightarrow>
               (case download env operation' of
                  Inl err \<Rightarrow> Some (Inl err)
                | Inr videoUrl \<Rightarrow> Some (Inr (videoUrl, k * pollDelay)))))"


subsection \<open>What the polling loop sees\<close>

text \<open>
  \<open>opAt operation getOp n\<close> is the value of the loop variable after \<open>n\<close> polls that start
  from \<open>operation\<close>; \<open>observed\<close> is the same sequence seen from the call of
  \<open>generateVeoVideo\<close>, whose first element is the answer of \<open>generateVideos\<close>.
\<close>

definition opAt :: "VideoOperation \<Rightarrow> (nat \<Rightarrow> JsError + VideoOperation) \<Rightarrow> nat \<Rightarrow> JsError + VideoOperation" where
  "opAt operation getOp n = (case n of 0 \<Rightarrow> Inr operation | Suc j \<Rightarrow> getOp j)"

definition observed :: "VeoEnv \<Rightarrow> string option \<Rightarrow> string \<Rightarrow> AspectRatio \<Rightarrow> nat \<Rightarrow> JsError + VideoOperation" where
  "observed env imageBase64 mimeType ratio n =
     (case n of
        0 \<Rightarrow> generateVideos env imageBase64 mimeType ratio
      | Suc j \<Rightarrow> getVideosOperation env j)"

definition stillRunning :: "(nat \<Rightarrow> JsError + VideoOperation) \<Rightarrow> nat \<Rightarrow> bool" where
  "stillRunning seq i = (case seq i of Inl err \<Rightarrow> False | Inr p \<Rightarrow> \<not> op_done p)"

definition pollSpec :: "(nat \<Rightarrow> JsError + VideoOperation) \<Rightarrow> nat \<Rightarrow> JsError + VideoOperation \<times> nat \<Rightarrow> bool" where
  "pollSpec seq k r =
     (case r of
        Inl err \<Rightarrow> \<exists>n. seq (Suc n) = Inl err \<and> (\<forall>i\<le>n. stillRunning seq i)
      | Inr (d, m) \<Rightarrow> \<exists>n. m = k + n \<and> seq n = Inr d \<and> op_done d \<and> (\<forall>i<n. stillRunning seq i))"

text \<open>A remote operation that reports done at the third poll, and a download that succeeds.\<close>

definition testOp :: "bool \<Rightarrow> VideoOperation" where
  "testOp d =
     \<lparr>op_done = d,
      op_response =
        (if d then Some \<lparr>generatedVideos = Some [\<lparr>video_of = Some \<lparr>uri = Some ''https://v/1?alt=media''\<rparr>\<rparr>]\<rparr>
         else None)\<rparr>"

definition testEnv :: VeoEnv where
  "testEnv =
     \<lparr>generateVideos = (\<lambda>imageBase64 mimeType ratio. Inr (testOp False)),
      getVideosOperation = (\<lambda>k. Inr (testOp (2 \<le> k))),
      fetch = (\<lambda>url. Inr \<lparr>ok = True, blob = Inr url\<rparr>),
      createObjectURL = (\<lambda>b. ''blob:'' @ b),
      API_KEY = ''K''\<rparr>"

text \<open>The same remote, but the operation never reports done.\<close>

definition stuckEnv :: VeoEnv where
  "stuckEnv = testEnv\<lparr>getVideosOperation := (\<lambda>k. Inr (testOp False))\<rparr>"

section \<open>App.tsx\<close>

subsection \<open>State\<close>

record File =
  file_name :: string
  file_type :: string

datatype ApiCall =
    CheckApiKey
  | PromptApiKeySelection
  | GenerateStory "string option" string
  | GenerateVeoVideo "string option" string AspectRatio
  | GenerateSpeech string

text \<open>
  The component's state and refs, followed by what the browser and the network hold
  for it: the audio sources that are playing (started, neither stopped nor ended) with
  their buffers, the live interval timers, the log of calls made to the services, the file
  reads that have not ended, and the requests that have not settled. A video request is
  named by the \<open>progressTimer\<close> its handler holds.
\<close>

record AppState =
  apiKeyReady :: bool
  selectedFile :: "File option"
  imagePreview :: "string option"
  story :: StoryState
  video :: VideoState
  audio :: AudioState
  aspectRatio :: AspectRatio
  audioContextRef :: "nat option"
  audioSourceRef :: "nat option"
  sources :: "(nat \<times> AudioBuffer) list"
  nextSource :: nat
  timers :: "nat list"
  nextTimer :: nat
  calls :: "ApiCall list"
  reading :: "File list"
  storyRequests :: nat
  videoRequests :: "nat list"
  speechRequests :: nat

definition initialStory :: StoryState where
  "initialStory = \<lparr>story_text = [], story_isGenerating = False, story_error = None\<rparr>"

definition initialVideo :: VideoState where
  "initialVideo =
     \<lparr>video_url = None, video_isGenerating = False, video_progressMessage = [], video_error = None\<rparr>"

definition initialAudio :: AudioState where
  "initialAudio = \<lparr>audio_isPlaying = False, audio_isGenerating = False, audio_audioBuffer = None\<rparr>"

definition initialState :: AppState where
  "initialState =
     \<lparr>apiKeyReady = False, selectedFile = None, imagePreview = None,
      story = initialStory, video = initialVideo, audio = initialAudio,
      aspectRatio = LANDSCAPE, audioContextRef = None, audioSourceRef = None,
      sources = [], nextSource = 0, timers = [], nextTimer = 0, calls = [], reading = [],
      storyRequests = 0, videoRequests = [], speechRequests = 0\<rparr>"

subsection \<open>Audio\<close>

text \<open>The context is created on first use, with a sample rate of 24000.\<close>

definition getAudioContext :: "AppState \<Rightarrow> AppState" where
  "getAudioContext s =
     (case audioContextRef s of
        None \<Rightarrow> s\<lparr>audioContextRef := Some 24000\<rparr>
      | Some ctx \<Rightarrow> s)"

definition playBuffer :: "AudioBuffer \<Rightarrow> AppState \<Rightarrow> AppState" where
  "playBuffer buffer s =
     (let s1 = getAudioContext s;
          source = nextSource s1;
          s2 = s1\<lparr>nextSource := Suc source, sources := sources s1 @ [(source, buffer)]\<rparr>;
          s3 = s2\<lparr>audioSourceRef := Some source\<rparr>
      in s3\<lparr>audio := (audio s3)\<lparr>audio_isPlaying := True\<rparr>\<rparr>)"

text \<open>
  Stopping a source that has already ended throws, which the handler ignores; here it
  removes nothing.
\<close>

definition stopAudio :: "AppState \<Rightarrow> AppState" where
  "stopAudio s =
     (let s1 = (case audioSourceRef s of
                  None \<Rightarrow> s
                | Some source \<Rightarrow>
                    s\<lparr>sources := filter (\<lambda>p. fst p \<noteq> source) (sources s),
                      audioSourceRef := None\<rparr>)
      in s1\<lparr>audio := (audio s1)\<lparr>audio_isPlaying := False\<rparr>\<rparr>)"

text \<open>The \<open>onended\<close> callback that \<open>playBuffer\<close> installs.\<close>

definition onended :: "AppState \<Rightarrow> AppState" where
  "onended s = s\<lparr>audio := (audio s)\<lparr>audio_isPlaying := False\<rparr>\<rparr>"

subsection \<open>Story\<close>

text \<open>
  \<open>handleGenerateStory\<close> up to its \<open>await\<close>: the header is split off, the story is marked
  as generating and the request is sent.
\<close>

definition base64DataOf :: "string \<Rightarrow> string option" where
  "base64DataOf base64Image = at_index (js_split CHR '','' base64Image) 1"

definition handleGenerateStory_begin :: "string \<Rightarrow> string \<Rightarrow> AppState \<Rightarrow> AppState" where
  "handleGenerateStory_begin base64Image mimeType s =
     (let base64Data = base64DataOf base64Image;
          s1 = s\<lparr>story := (story s)\<lparr>story_isGenerating := True, story_error := None\<rparr>\<rparr>
      in s1\<lparr>calls := calls s1 @ [GenerateStory base64Data mimeType],
            storyRequests := Suc (storyRequests s1)\<rparr>)"

text \<open>\<open>handleGenerateStory\<close> after its \<open>await\<close>, on the settled promise of \<open>generateStory\<close>.\<close>

definition handleGenerateStory_settle :: "JsError + string \<Rightarrow> AppState \<Rightarrow> AppState" where
  "handleGenerateStory_settle settled s =
     (let s1 = s\<lparr>storyRequests := storyRequests s - 1\<rparr> in
      case settled of
        Inr generatedText \<Rightarrow>
          s1\<lparr>story := \<lparr>story_text = generatedText, story_isGenerating = False, story_error = None\<rparr>\<rparr>
      | Inl err \<Rightarrow>
          s1\<lparr>story := \<lparr>story_text = [], story_isGenerating = False,
                        story_error = Some (''Failed to generate story. '' @ messageOrEmpty err)\<rparr>\<rparr>)"

text \<open>The whole handler, when nothing else happens while the request is in flight.\<close>

definition handleGenerateStory ::
  "(string option \<Rightarrow> string \<Rightarrow> JsError + string option) \<Rightarrow> string \<Rightarrow> string \<Rightarrow> AppState
     \<Rightarrow> AppState" where
  "handleGenerateStory generateContent base64Image mimeType s =
     handleGenerateStory_settle
       (generateStory generateContent (base64DataOf base64Image) mimeType)
       (handleGenerateStory_begin base64Image mimeType s)"

subsection \<open>File selection\<close>

text \<open>\<open>e.target.files\<close> that is null or empty selects nothing.\<close>

definition handleFileChange :: "File list \<Rightarrow> AppState \<Rightarrow> AppState" where
  "handleFileChange files s =
     (case files of
        [] \<Rightarrow> s
      | file # rest \<Rightarrow> s\<lparr>selectedFile := Some file, reading := reading s @ [file]\<rparr>)"

text \<open>The \<open>onloadend\<close> callback up to the comment "Auto-generate story on upload".\<close>

definition onloadend_reset :: "string option \<Rightarrow> AppState \<Rightarrow> AppState" where
  "onloadend_reset result s =
     (let s1 = s\<lparr>imagePreview := result\<rparr>;
          s2 = s1\<lparr>story := \<lparr>story_text = [], story_isGenerating = False, story_error = None\<rparr>\<rparr>;
          s3 = s2\<lparr>video := \<lparr>video_url = None, video_isGenerating = False,
                              video_progressMessage = [], video_error = None\<rparr>\<rparr>;
          s4 = stopAudio s3
      in s4\<lparr>audio := \<lparr>audio_isPlaying = False, audio_isGenerating = False,
                       audio_audioBuffer = None\<rparr>\<rparr>)"

text \<open>
  The whole callback. A read that failed has a null result, on which \<open>split\<close> throws
  before the story is touched.
\<close>

definition onloadend :: "File \<Rightarrow> string option \<Rightarrow> AppState \<Rightarrow> AppState" where
  "onloadend file result s =
     (let s1 = onloadend_reset result s in
      case result of
        None \<Rightarrow> s1
      | Some base64Image \<Rightarrow> handleGenerateStory_begin base64Image (file_type file) s1)"

subsection \<open>Video\<close>

record KeyAnswers =
  prompted :: "JsError + unit"
  checked :: "JsError + bool"
  rechecked :: "JsError + bool"

definition handleApiKeySelect :: "JsError + unit \<Rightarrow> JsError + bool \<Rightarrow> AppState \<Rightarrow> AppState" where
  "handleApiKeySelect promptAnswer checkAnswer s =
     (let s1 = s\<lparr>calls := calls s @ [PromptApiKeySelection]\<rparr> in
      case promptAnswer of
        Inl e \<Rightarrow> s1
      | Inr u \<Rightarrow>
          (let s2 = s1\<lparr>calls := calls s1 @ [CheckApiKey]\<rparr> in
           case checkAnswer of
             Inl e \<Rightarrow> s2
           | Inr ready \<Rightarrow> s2\<lparr>apiKeyReady := ready\<rparr>))"

definition msgs :: "string list" where
  "msgs =
     [''Analyzing scene composition...'',
      ''Dreaming up motion vectors...'',
      ''Rendering frames with Veo...'',
      ''Polishing pixels...'',
      ''Almost there...'']"

text \<open>The updater that the interval timer passes to \<open>setVideo\<close>.\<close>

definition tick :: "VideoState \<Rightarrow> VideoState" where
  "tick prev =
     (if \<not> video_isGenerating prev then prev
      else
        (let currentIdx = indexOf msgs (video_progressMessage prev);
             nextMsg = orElse (at_int msgs (js_rem (currentIdx + 1) (int (length msgs))))
                              (msgs ! 0)
         in prev\<lparr>video_progressMessage := nextMsg\<rparr>))"

text \<open>
  From \<open>const base64Data\<close> to the \<open>await\<close>: the video is marked as generating, the
  timer is started and the request is sent.
\<close>

definition handleGenerateVideo_start :: "string \<Rightarrow> File \<Rightarrow> AppState \<Rightarrow> AppState" where
  "handleGenerateVideo_start preview file s =
     (let base64Data = base64DataOf preview;
          mimeType = file_type file;
          s1 = s\<lparr>video := \<lparr>video_url = None, video_isGenerating = True,
                             video_progressMessage = ''Initializing Veo...'', video_error = None\<rparr>\<rparr>;
          progressTimer = nextTimer s1;
          s2 = s1\<lparr>nextTimer := Suc progressTimer, timers := timers s1 @ [progressTimer]\<rparr>
      in s2\<lparr>calls := calls s2 @ [GenerateVeoVideo base64Data mimeType (aspectRatio s)],
            videoRequests := videoRequests s2 @ [progressTimer]\<rparr>)"

text \<open>
  \<open>handleGenerateVideo\<close> up to the \<open>await\<close> of \<open>generateVeoVideo\<close>. The key dialogue is
  taken in one step with the click; the answers of the widget are given.
\<close>

definition handleGenerateVideo_begin :: "KeyAnswers \<Rightarrow> AppState \<Rightarrow> AppState" where
  "handleGenerateVideo_begin answers s =
     (case (imagePreview s, selectedFile s) of
        (Some preview, Some file) \<Rightarrow>
          (if preview = [] then s
           else if \<not> apiKeyReady s then
             (let s1 = handleApiKeySelect (prompted answers) (checked answers) s;
                  s2 = s1\<lparr>calls := calls s1 @ [CheckApiKey]\<rparr>
              in case rechecked answers of
                   Inl e \<Rightarrow> s2
                 | Inr ready \<Rightarrow>
                     (if \<not> ready then s2 else handleGenerateVideo_start preview file s2))
           else handleGenerateVideo_start preview file s)
      | _ \<Rightarrow> s)"

text \<open>
  After the \<open>await\<close>, on the settled promise of \<open>generateVeoVideo\<close>: the success path
  clears the timer, the \<open>catch\<close> block does not.
\<close>

definition handleGenerateVideo_settle :: "nat \<Rightarrow> JsError + string \<Rightarrow> AppState \<Rightarrow> AppState" where
  "handleGenerateVideo_settle progressTimer settled s =
     (let s0 = s\<lparr>videoRequests := remove1 progressTimer (videoRequests s)\<rparr> in
      case settled of
        Inr videoUrl \<Rightarrow>
          (let s1 = s0\<lparr>timers := removeAll progressTimer (timers s0)\<rparr>
           in s1\<lparr>video := \<lparr>video_url = Some videoUrl, video_isGenerating = False,
                              video_progressMessage = [], video_error = None\<rparr>\<rparr>)
      | Inl err \<Rightarrow>
          s0\<lparr>video := \<lparr>video_url = None, video_isGenerating = False,
                        video_progressMessage = [],
                        video_error = Some (''Video generation failed. '' @ messageOrEmpty err)\<rparr>\<rparr>)"

subsection \<open>Narration\<close>


text \<open>\<open>handleReadAloud\<close> up to its first \<open>await\<close>.\<close>

definition handleReadAloud_begin :: "AppState \<Rightarrow> AppState" where
  "handleReadAloud_begin s =
     (if story_text (story s) = [] then s
      else if audio_isPlaying (audio s) then stopAudio s
      else
        (case audio_audioBuffer (audio s) of
           Some buffer \<Rightarrow> playBuffer buffer s
         | None \<Rightarrow>
             (let s1 = s\<lparr>audio := (audio s)\<lparr>audio_isGenerating := True\<rparr>\<rparr>
              in s1\<lparr>calls := calls s1 @ [GenerateSpeech (story_text (story s))],
                    speechRequests := Suc (speechRequests s1)\<rparr>)))"

text \<open>
  The rest of the \<open>try\<close> block and the \<open>catch\<close> block, on the settled promise of
  \<open>generateSpeech\<close>; \<open>decodeAudioData\<close> is given the audio and the context's sample rate.
\<close>

definition handleReadAloud_failed :: "AppState \<Rightarrow> AppState" where
  "handleReadAloud_failed s =
     s\<lparr>audio := (audio s)\<lparr>audio_isGenerating := False, audio_isPlaying := False\<rparr>\<rparr>"

definition handleReadAloud_settle ::
  "JsError + string \<Rightarrow> (string \<Rightarrow> nat \<Rightarrow> JsError + AudioBuffer) \<Rightarrow> AppState \<Rightarrow> AppState" where
  "handleReadAloud_settle settled decodeAudioData s =
     (let s0 = s\<lparr>speechRequests := speechRequests s - 1\<rparr> in
      case settled of
        Inl err \<Rightarrow> handleReadAloud_failed s0
      | Inr base64Audio \<Rightarrow>
          (let s1 = getAudioContext s0 in
           case decodeAudioData base64Audio (case audioContextRef s1 of Some ctx \<Rightarrow> ctx | None \<Rightarrow> 0) of
             Inl err \<Rightarrow> handleReadAloud_failed s1
           | Inr buffer \<Rightarrow>
               playBuffer buffer
                 (s1\<lparr>audio := (audio s1)\<lparr>audio_isGenerating := False,
                                          audio_audioBuffer := Some buffer\<rparr>\<rparr>)))"


subsection \<open>The component as a transition system\<close>

text \<open>
  Everything that can happen to the mounted component: a key check reports, a file is
  chosen, a file read ends, a request settles, a timer fires, a source plays to its end, a
  button is clicked. A button can be clicked only when the render shows it enabled.
  A key check may report at any time, which covers the check on mount and the one of the
  connect screen. The \<open>ended\<close> event that the browser sends after \<open>stop()\<close> has no step of
  its own: its callback sets \<open>isPlaying\<close> to false, as \<open>stopAudio\<close> has just done.
\<close>

datatype Event =
    ApiKeyChecked bool
  | FileChange "File list"
  | LoadEnd File "string option"
  | StorySettled "JsError + string"
  | ClickGenerateVideo KeyAnswers
  | VideoSettled nat "JsError + string"
  | Tick nat
  | ClickReadAloud
  | SpeechSettled "JsError + string" "JsError + AudioBuffer"
  | SourceEnded nat
  | ClickAspectRatio AspectRatio

fun enabled :: "Event \<Rightarrow> AppState \<Rightarrow> bool" where
  "enabled (ApiKeyChecked ready) s = True"
| "enabled (FileChange files) s = apiKeyReady s"
| "enabled (LoadEnd file result) s = (file \<in> set (reading s))"
| "enabled (StorySettled settled) s = (0 < storyRequests s)"
| "enabled (ClickGenerateVideo answers) s =
     (apiKeyReady s \<and> truthy (imagePreview s) \<and> \<not> video_isGenerating (video s)
      \<and> \<not> truthy (video_url (video s)))"
| "enabled (VideoSettled progressTimer settled) s = (progressTimer \<in> set (videoRequests s))"
| "enabled (Tick timer) s = (timer \<in> set (timers s))"
| "enabled ClickReadAloud s =
     (apiKeyReady s
      \<and> \<not> (story_isGenerating (story s) \<or> story_text (story s) = [] \<or> audio_isGenerating (audio s)))"
| "enabled (SpeechSettled settled decoded) s = (0 < speechRequests s)"
| "enabled (SourceEnded source) s = (source \<in> fst ` set (sources s))"
| "enabled (ClickAspectRatio ratio) s = apiKeyReady s"

fun step :: "Event \<Rightarrow> AppState \<Rightarrow> AppState" where
  "step (ApiKeyChecked ready) s = s\<lparr>apiKeyReady := ready\<rparr>"
| "step (FileChange files) s = handleFileChange files s"
| "step (LoadEnd file result) s = onloadend file result (s\<lparr>reading := remove1 file (reading s)\<rparr>)"
| "step (StorySettled settled) s = handleGenerateStory_settle settled s"
| "step (ClickGenerateVideo answers) s = handleGenerateVideo_begin answers s"
| "step (VideoSettled progressTimer settled) s = handleGenerateVideo_settle progressTimer settled s"
| "step (Tick timer) s = s\<lparr>video := tick (video s)\<rparr>"
| "step ClickReadAloud s = handleReadAloud_begin s"
| "step (SpeechSettled settled decoded) s = handleReadAloud_settle settled (\<lambda>a ctx. decoded) s"
| "step (SourceEnded source) s =
     onended (s\<lparr>sources := filter (\<lambda>p. fst p \<noteq> source) (sources s)\<rparr>)"
| "step (ClickAspectRatio ratio) s = s\<lparr>aspectRatio := ratio\<rparr>"

text \<open>Running a sequence of events; \<open>None\<close> when one of them cannot happen.\<close>

fun run :: "Event list \<Rightarrow> AppState \<Rightarrow> AppState option" where
  "run [] s = Some s"
| "run (e # es) s = (if enabled e s then run es (step e s) else None)"

subsection \<open>Concrete inputs\<close>

text \<open>
  Files, states and event sequences on which the handlers are run below. In
  \<open>overlappingNarrations\<close> a second image is loaded while the narration of the first is
  still being generated; in \<open>retryAfterFailure\<close> a video generation fails and is started
  again; in \<open>retrySameStory\<close> a narration fails and is asked for again; in
  \<open>twoRequestsOneStory\<close> that failure comes while a request for the next story is in flight.
\<close>

definition testAnswers :: KeyAnswers where
  "testAnswers = \<lparr>prompted = Inr (), checked = Inr True, rechecked = Inr True\<rparr>"

definition testFile :: File where
  "testFile = \<lparr>file_name = ''scene.png'', file_type = ''image/png''\<rparr>"



definition videoOk :: "VideoState \<Rightarrow> bool" where
  "videoOk v = (\<not> (video_isGenerating v \<and> video_url v \<noteq> None))"

definition otherFile :: File where
  "otherFile = \<lparr>file_name = ''harbour.jpg'', file_type = ''image/jpeg''\<rparr>"

definition thirdFile :: File where
  "thirdFile = \<lparr>file_name = ''forest.webp'', file_type = ''image/webp''\<rparr>"

definition videoSession :: "Event list" where
  "videoSession =
     [ApiKeyChecked True,
      FileChange [testFile],
      LoadEnd testFile (Some ''data:image/png;base64,AAAA''),
      ClickGenerateVideo testAnswers,
      Tick 0,
      VideoSettled 0 (Inr ''blob:1'')]"

definition overlappingNarrations :: "Event list" where
  "overlappingNarrations =
     [ApiKeyChecked True,
      FileChange [testFile],
      LoadEnd testFile (Some ''data:image/png;base64,AAAA''),
      StorySettled (Inr ''Fog.''),
      ClickReadAloud,
      FileChange [otherFile],
      LoadEnd otherFile (Some ''data:image/jpeg;base64,BBBB''),
      StorySettled (Inr ''Tide.''),
      ClickReadAloud,
      SpeechSettled (Inr ''AAEC'') (Inr [1]),
      SpeechSettled (Inr ''AwQF'') (Inr [2])]"

definition nextUpload :: "Event list" where
  "nextUpload =
     [FileChange [thirdFile],
      LoadEnd thirdFile (Some ''data:image/webp;base64,CCCC'')]"


definition twoRequestsOneStory :: "Event list" where
  "twoRequestsOneStory =
     [ApiKeyChecked True,
      FileChange [testFile],
      LoadEnd testFile (Some ''data:image/png;base64,AAAA''),
      StorySettled (Inr ''Fog.''),
      ClickReadAloud,
      FileChange [otherFile],
      LoadEnd otherFile (Some ''data:image/jpeg;base64,BBBB''),
      StorySettled (Inr ''Tide.''),
      ClickReadAloud,
      SpeechSettled (Inl (Error (Some ''No audio data returned.''))) (Inr []),
      ClickReadAloud,
      SpeechSettled (Inr ''AAEC'') (Inr [1]),
      SpeechSettled (Inr ''AwQF'') (Inr [2])]"

definition retryAfterFailure :: "Event list" where
  "retryAfterFailure =
     [ApiKeyChecked True,
      FileChange [testFile],
      LoadEnd testFile (Some ''data:image/png;base64,AAAA''),
      ClickGenerateVideo testAnswers,
      VideoSettled 0 (Inl (Error (Some ''No video generated in response.''))),
      ClickGenerateVideo testAnswers]"

section \<open>The polling loop of generateVeoVideo\<close>

lemma opAt_shift:
  assumes "getOp k = Inr operation'"
  shows "opAt operation' (\<lambda>j. getOp (Suc k + j)) = (\<lambda>n. opAt operation (\<lambda>j. getOp (k + j)) (Suc n))"
proof
  fix n
  show "opAt operation' (\<lambda>j. getOp (Suc k + j)) n = opAt operation (\<lambda>j. getOp (k + j)) (Suc n)"
    using assms by (cases n) (simp_all add: opAt_def)
qed

lemma pollSpec_Suc:
  assumes p0: "stillRunning seq 0" and ih: "pollSpec (\<lambda>n. seq (Suc n)) (Suc k) r"
  shows "pollSpec seq k r"
proof (cases r)
  case (Inl err)
  with ih obtain n where n: "seq (Suc (Suc n)) = Inl err" "\<forall>i\<le>n. stillRunning seq (Suc i)"
    by (auto simp: pollSpec_def stillRunning_def)
  have "stillRunning seq i" if "i \<le> Suc n" for i
    using that n(2) p0 by (cases i) auto
  with n(1) show ?thesis unfolding pollSpec_def Inl by auto
next
  case (Inr b)
  obtain d m where b: "b = (d, m)" by (cases b)
  with ih Inr obtain n where n: "m = Suc k + n" "seq (Suc n) = Inr d" "op_done d"
    "\<forall>i<n. stillRunning seq (Suc i)"
    by (auto simp: pollSpec_def stillRunning_def)
  have "stillRunning seq i" if "i < Suc n" for i
    using that n(4) p0 by (cases i) auto
  with n(1,2,3) show ?thesis unfolding pollSpec_def Inr b by (auto intro!: exI[of _ "Suc n"])
qed

lemma pollLoop_result:
  assumes "pollLoop getOp k operation = Some r"
  shows "pollSpec (opAt operation (\<lambda>j. getOp (k + j))) k r"
proof (rule pollLoop.raw_induct[OF _ assms], goal_cases)
  case (1 pl getOp k operation r)
  show ?case
  proof (cases "op_done operation")
    case True
    then have "r = Inr (operation, k)" using 1(2) by simp
    then show ?thesis using True by (simp add: pollSpec_def opAt_def)
  next
    case nd: False
    show ?thesis
    proof (cases "getOp k")
      case (Inl err)
      then have "r = Inl err" using nd 1(2) by simp
      moreover have "opAt operation (\<lambda>j. getOp (k + j)) (Suc 0) = Inl err"
        using Inl by (simp add: opAt_def)
      moreover have "stillRunning (opAt operation (\<lambda>j. getOp (k + j))) 0"
        using nd by (simp add: stillRunning_def opAt_def)
      ultimately show ?thesis unfolding pollSpec_def by (auto intro!: exI[of _ 0])
    next
      case (Inr operation')
      then have "pl getOp (Suc k) operation' = Some r" using nd 1(2) by simp
      from 1(1)[OF this]
      have "pollSpec (\<lambda>n. opAt operation (\<lambda>j. getOp (k + j)) (Suc n)) (Suc k) r"
        by (simp only: opAt_shift[of getOp k operation' operation, OF Inr])
      moreover have "stillRunning (opAt operation (\<lambda>j. getOp (k + j))) 0"
        using nd by (simp add: stillRunning_def opAt_def)
      ultimately show ?thesis by (rule pollSpec_Suc[rotated])
    qed
  qed
qed

lemma pollLoop_terminates:
  "getOp n = Inr d \<Longrightarrow> op_done d \<Longrightarrow> k \<le> n \<Longrightarrow> \<exists>r. pollLoop getOp k operation = Some r"
proof (induction "n - k" arbitrary: k operation)
  case 0
  then have kn: "k = n" by simp
  show ?case
  proof (cases "op_done operation")
    case True
    then show ?thesis by (subst pollLoop.simps) simp
  next
    case False
    have "pollLoop getOp (Suc n) d = Some (Inr (d, Suc n))"
      using 0 by (subst pollLoop.simps) simp
    then show ?thesis using False 0 kn by (subst pollLoop.simps) simp
  qed
next
  case (Suc m)
  show ?case
  proof (cases "op_done operation")
    case True
    then show ?thesis by (subst pollLoop.simps) simp
  next
    case False
    show ?thesis
    proof (cases "getOp k")
      case (Inl err)
      then show ?thesis using False by (subst pollLoop.simps) simp
    next
      case (Inr operation')
      have "m = n - Suc k" "Suc k \<le> n" using Suc.hyps(2) by simp_all
      from Suc.hyps(1)[OF this(1) Suc.prems(1,2) this(2)]
      obtain r where "pollLoop getOp (Suc k) operation' = Some r" by blast
      then show ?thesis using False Inr by (subst pollLoop.simps) simp
    qed
  qed
qed


lemma observed_opAt:
  "generateVideos env imageBase64 mimeType ratio = Inr operation \<Longrightarrow>
   observed env imageBase64 mimeType ratio = opAt operation (getVideosOperation env)"
  by (rule ext) (simp add: observed_def opAt_def split: nat.split)

lemma generateVeoVideo_returns:
  assumes "observed env imageBase64 mimeType ratio n = Inr d" and "op_done d"
  shows "\<exists>res. generateVeoVideo env imageBase64 mimeType ratio = Some res"
proof (cases "generateVideos env imageBase64 mimeType ratio")
  case (Inl err)
  then show ?thesis by (simp add: generateVeoVideo_def)
next
  case (Inr operation)
  have "\<exists>r. pollLoop (getVideosOperation env) 0 operation = Some r"
  proof (cases n)
    case 0
    then have "op_done operation" using assms Inr by (simp add: observed_def)
    then show ?thesis by (subst pollLoop.simps) simp
  next
    case (Suc j)
    then have "getVideosOperation env j = Inr d" using assms by (simp add: observed_def)
    from pollLoop_terminates[of "getVideosOperation env" j d 0 operation, OF this assms(2)]
    show ?thesis by simp
  qed
  then obtain r where r: "pollLoop (getVideosOperation env) 0 operation = Some r" by blast
  show ?thesis
  proof (cases r)
    case (Inl err)
    then show ?thesis using Inr r by (simp add: generateVeoVideo_def)
  next
    case (Inr b)
    then show ?thesis using \<open>generateVideos env imageBase64 mimeType ratio = Inr operation\<close> r
      by (cases b) (simp add: generateVeoVideo_def split: sum.splits)
  qed
qed

lemma generateVeoVideo_url:
  assumes "generateVeoVideo env imageBase64 mimeType ratio = Some (Inr (url, waited))"
  shows "\<exists>n d. observed env imageBase64 mimeType ratio n = Inr d \<and> op_done d
           \<and> (\<forall>i<n. stillRunning (observed env imageBase64 mimeType ratio) i)
           \<and> waited = n * pollDelay \<and> download env d = Inr url"
proof (cases "generateVideos env imageBase64 mimeType ratio")
  case (Inl err)
  then show ?thesis using assms by (simp add: generateVeoVideo_def)
next
  case (Inr operation)
  note obs = observed_opAt[OF Inr]
  show ?thesis
  proof (cases "pollLoop (getVideosOperation env) 0 operation")
    case None
    then show ?thesis using assms Inr by (simp add: generateVeoVideo_def)
  next
    case (Some r)
    from pollLoop_result[OF Some]
    have spec: "pollSpec (opAt operation (getVideosOperation env)) 0 r" by simp
    show ?thesis
    proof (cases r)
      case (Inl err)
      then show ?thesis using assms Inr Some by (simp add: generateVeoVideo_def)
    next
      case r: (Inr b)
      obtain d m where b: "b = (d, m)" by (cases b)
      from assms Inr Some r b have dl: "download env d = Inr url" and w: "waited = m * pollDelay"
        by (simp_all add: generateVeoVideo_def split: sum.splits)
      from spec r b have "opAt operation (getVideosOperation env) m = Inr d" "op_done d"
        "\<forall>i<m. stillRunning (opAt operation (getVideosOperation env)) i"
        by (simp_all add: pollSpec_def)
      then show ?thesis using dl w unfolding obs by blast
    qed
  qed
qed

lemma pollLoop_unfold:
  "\<forall>i<n. stillRunning (opAt operation getOp) i \<Longrightarrow>
     pollLoop getOp 0 operation
       = (case opAt operation getOp n of
            Inl err \<Rightarrow> Some (Inl err)
          | Inr d \<Rightarrow> pollLoop getOp n d)"
proof (induction n)
  case 0
  show ?case by (simp add: opAt_def)
next
  case (Suc n)
  from Suc.prems have "stillRunning (opAt operation getOp) n" by simp
  then obtain p where p: "opAt operation getOp n = Inr p" "\<not> op_done p"
    by (auto simp: stillRunning_def split: sum.splits)
  from Suc.prems have "\<forall>i<n. stillRunning (opAt operation getOp) i" by simp
  from Suc.IH[OF this] p have "pollLoop getOp 0 operation = pollLoop getOp n p" by simp
  also have "\<dots> = (case getOp n of Inl err \<Rightarrow> Some (Inl err)
                    | Inr operation' \<Rightarrow> pollLoop getOp (Suc n) operation')"
    using p(2) by (subst pollLoop.simps) simp
  finally show ?case by (simp add: opAt_def)
qed

lemma pollLoop_done: "op_done d \<Longrightarrow> pollLoop getOp n d = Some (Inr (d, n))"
  by (subst pollLoop.simps) simp

lemma observed_start:
  assumes "stillRunning (observed env imageBase64 mimeType ratio) 0"
  shows "\<exists>operation. generateVideos env imageBase64 mimeType ratio = Inr operation"
  using assms by (auto simp: stillRunning_def observed_def split: sum.splits)

lemma generateVeoVideo_first_done:
  assumes run: "\<forall>i<n. stillRunning (observed env imageBase64 mimeType ratio) i"
    and d: "observed env imageBase64 mimeType ratio n = Inr d" "op_done d"
  shows "generateVeoVideo env imageBase64 mimeType ratio
           = Some (case download env d of
                     Inl err \<Rightarrow> Inl err
                   | Inr videoUrl \<Rightarrow> Inr (videoUrl, n * pollDelay))"
proof -
  have "\<exists>operation. generateVideos env imageBase64 mimeType ratio = Inr operation"
  proof (cases n)
    case 0
    then show ?thesis using d(1) by (simp add: observed_def)
  next
    case (Suc j)
    then have "stillRunning (observed env imageBase64 mimeType ratio) 0" using run by simp
    then show ?thesis by (rule observed_start)
  qed
  then obtain operation where g: "generateVideos env imageBase64 mimeType ratio = Inr operation"
    by blast
  note obs = observed_opAt[OF g]
  from pollLoop_unfold[of n operation "getVideosOperation env"] run d
  have "pollLoop (getVideosOperation env) 0 operation = Some (Inr (d, n))"
    unfolding obs by (simp add: pollLoop_done)
  then show ?thesis using g by (simp add: generateVeoVideo_def split: sum.splits)
qed

lemma generateVeoVideo_first_error:
  assumes run: "\<forall>i<n. stillRunning (observed env imageBase64 mimeType ratio) i"
    and e: "observed env imageBase64 mimeType ratio n = Inl err"
  shows "generateVeoVideo env imageBase64 mimeType ratio = Some (Inl err)"
proof (cases n)
  case 0
  then show ?thesis using e by (simp add: observed_def generateVeoVideo_def)
next
  case (Suc j)
  then have "stillRunning (observed env imageBase64 mimeType ratio) 0" using run by simp
  from observed_start[OF this] obtain operation where
    g: "generateVideos env imageBase64 mimeType ratio = Inr operation" by blast
  note obs = observed_opAt[OF g]
  from pollLoop_unfold[of n operation "getVideosOperation env"] run e
  have "pollLoop (getVideosOperation env) 0 operation = Some (Inl err)"
    unfolding obs by simp
  then show ?thesis using g by (simp add: generateVeoVideo_def)
qed

lemma generateVeoVideo_never_done:
  assumes run: "\<forall>n. stillRunning (observed env imageBase64 mimeType ratio) n"
  shows "generateVeoVideo env imageBase64 mimeType ratio = None"
proof -
  from run have "stillRunning (observed env imageBase64 mimeType ratio) 0" by blast
  from observed_start[OF this] obtain operation where
    g: "generateVideos env imageBase64 mimeType ratio = Inr operation" by blast
  note obs = observed_opAt[OF g]
  have "pollLoop (getVideosOperation env) 0 operation = None"
  proof (cases "pollLoop (getVideosOperation env) 0 operation")
    case None
    then show ?thesis .
  next
    case (Some r)
    from pollLoop_result[OF Some]
    have spec: "pollSpec (opAt operation (getVideosOperation env)) 0 r" by simp
    have still: "stillRunning (opAt operation (getVideosOperation env)) i" for i
      using run unfolding obs by blast
    have False
    proof (cases r)
      case (Inl err)
      with spec obtain m where "opAt operation (getVideosOperation env) (Suc m) = Inl err"
        by (auto simp: pollSpec_def)
      with still[of "Suc m"] show False by (simp add: stillRunning_def)
    next
      case (Inr b)
      obtain d m where "b = (d, m)" by (cases b)
      with spec Inr obtain j where "opAt operation (getVideosOperation env) j = Inr d" "op_done d"
        by (auto simp: pollSpec_def)
      with still[of j] show False by (simp add: stillRunning_def)
    qed
    then show ?thesis ..
  qed
  then show ?thesis using g by (simp add: generateVeoVideo_def)
qed

lemma download_success:
  assumes "downloadLink d = Some link" "link \<noteq> []"
    and "fetch env (link @ ''&key='' @ API_KEY env) = Inr videoResponse"
    and "ok videoResponse" "blob videoResponse = Inr videoBlob"
  shows "download env d = Inr (createObjectURL env videoBlob)"
  using assms by (simp add: download_def)

text \<open>
  Claim C1. \<open>generateVeoVideo\<close> is a polling loop. The variable \<open>operation\<close> holds in turn
  the answers \<open>observed 0\<close> (from \<open>generateVideos\<close>), \<open>observed 1\<close>, \<open>observed 2\<close>, ... (from
  the successive \<open>getVideosOperation\<close> calls, each after one wait). If some answer reports
  done, the function returns. Whenever it returns an object URL, it does so for the first
  answer \<open>d\<close> that reports done: every earlier answer was an operation that was not done,
  the function has waited once per poll, and the URL is the download of \<open>d\<close>'s video.
  Conversely, when the answers before the \<open>n\<close>-th are operations that are not done, the
  function polls up to the \<open>n\<close>-th: if that one is done, the result is the download of its
  video after \<open>n\<close> waits; if it is a rejection, the function rejects with it. When no
  answer is ever done or a rejection, the function does not return. A download whose link
  is present, whose fetch succeeds and whose response is ok gives the object URL of the
  blob.
\<close>

theorem generateVeoVideo_polls_until_done:
  "((\<exists>n d. observed env imageBase64 mimeType ratio n = Inr d \<and> op_done d)
      \<longrightarrow> (\<exists>res. generateVeoVideo env imageBase64 mimeType ratio = Some res))
   \<and> (\<forall>url waited. generateVeoVideo env imageBase64 mimeType ratio = Some (Inr (url, waited))
      \<longrightarrow> (\<exists>n d. observed env imageBase64 mimeType ratio n = Inr d \<and> op_done d
             \<and> (\<forall>i<n. stillRunning (observed env imageBase64 mimeType ratio) i)
             \<and> waited = n * pollDelay \<and> download env d = Inr url))
   \<and> (\<forall>n d. (\<forall>i<n. stillRunning (observed env imageBase64 mimeType ratio) i)
         \<and> observed env imageBase64 mimeType ratio n = Inr d \<and> op_done d
      \<longrightarrow> generateVeoVideo env imageBase64 mimeType ratio
            = Some (case download env d of
                      Inl err \<Rightarrow> Inl err
                    | Inr videoUrl \<Rightarrow> Inr (videoUrl, n * pollDelay)))
   \<and> (\<forall>n err. (\<forall>i<n. stillRunning (observed env imageBase64 mimeType ratio) i)
         \<and> observed env imageBase64 mimeType ratio n = Inl err
      \<longrightarrow> generateVeoVideo env imageBase64 mimeType ratio = Some (Inl err))
   \<and> ((\<forall>n. stillRunning (observed env imageBase64 mimeType ratio) n)
      \<longrightarrow> generateVeoVideo env imageBase64 mimeType ratio = None)
   \<and> (\<forall>d link videoResponse videoBlob.
         downloadLink d = Some link \<and> link \<noteq> []
         \<and> fetch env (link @ ''&key='' @ API_KEY env) = Inr videoResponse
         \<and> ok videoResponse \<and> blob videoResponse = Inr videoBlob
      \<longrightarrow> download env d = Inr (createObjectURL env videoBlob))"
proof -
  have a: "(\<exists>n d. observed env imageBase64 mimeType ratio n = Inr d \<and> op_done d)
      \<longrightarrow> (\<exists>res. generateVeoVideo env imageBase64 mimeType ratio = Some res)"
    using generateVeoVideo_returns by blast
  have b: "\<forall>url waited. generateVeoVideo env imageBase64 mimeType ratio = Some (Inr (url, waited))
      \<longrightarrow> (\<exists>n d. observed env imageBase64 mimeType ratio n = Inr d \<and> op_done d
             \<and> (\<forall>i<n. stillRunning (observed env imageBase64 mimeType ratio) i)
             \<and> waited = n * pollDelay \<and> download env d = Inr url)"
    using generateVeoVideo_url by blast
  have c: "\<forall>n d. (\<forall>i<n. stillRunning (observed env imageBase64 mimeType ratio) i)
         \<and> observed env imageBase64 mimeType ratio n = Inr d \<and> op_done d
      \<longrightarrow> generateVeoVideo env imageBase64 mimeType ratio
            = Some (case download env d of
                      Inl err \<Rightarrow> Inl err
                    | Inr videoUrl \<Rightarrow> Inr (videoUrl, n * pollDelay))"
    using generateVeoVideo_first_done by blast
  have d: "\<forall>n err. (\<forall>i<n. stillRunning (observed env imageBase64 mimeType ratio) i)
         \<and> observed env imageBase64 mimeType ratio n = Inl err
      \<longrightarrow> generateVeoVideo env imageBase64 mimeType ratio = Some (Inl err)"
    using generateVeoVideo_first_error by blast
  have e: "(\<forall>n. stillRunning (observed env imageBase64 mimeType ratio) n)
      \<longrightarrow> generateVeoVideo env imageBase64 mimeType ratio = None"
    using generateVeoVideo_never_done by blast
  have f: "\<forall>d link videoResponse videoBlob.
         downloadLink d = Some link \<and> link \<noteq> []
         \<and> fetch env (link @ ''&key='' @ API_KEY env) = Inr videoResponse
         \<and> ok videoResponse \<and> blob videoResponse = Inr videoBlob
      \<longrightarrow> download env d = Inr (createObjectURL env videoBlob)"
    using download_success by blast
  from a b c d e f show ?thesis by (intro conjI)
qed

theorem generateVeoVideo_polls_until_done_witness:
  "generateVeoVideo testEnv (Some ''AAAA'') ''image/png'' LANDSCAPE
     = Some (Inr (''blob:https://v/1?alt=media&key=K'', 15000))
   \<and> generateVeoVideo stuckEnv (Some ''AAAA'') ''image/png'' LANDSCAPE = None"
proof -
  let ?obs = "observed testEnv (Some ''AAAA'') ''image/png'' LANDSCAPE"
  have still: "\<forall>i<3. stillRunning ?obs i"
  proof (intro allI impI)
    fix i :: nat assume "i < 3"
    then consider "i = 0" | "i = 1" | "i = 2" by linarith
    then show "stillRunning ?obs i"
      by cases (simp_all add: stillRunning_def observed_def testEnv_def testOp_def)
  qed
  have fin: "?obs 3 = Inr (testOp True)" "op_done (testOp True)"
    by (simp_all add: observed_def testEnv_def testOp_def eval_nat_numeral)
  have link: "downloadLink (testOp True) = Some ''https://v/1?alt=media''"
    "''https://v/1?alt=media'' \<noteq> []"
    by (simp_all add: downloadLink_def testOp_def at_index_def)
  note th = generateVeoVideo_polls_until_done[of testEnv "Some ''AAAA''" "''image/png''" LANDSCAPE]
  note fetching = th[THEN conjunct2, THEN conjunct2, THEN conjunct2, THEN conjunct2,
      THEN conjunct2, rule_format,
      of "testOp True" "''https://v/1?alt=media''"
        "\<lparr>ok = True, blob = Inr ''https://v/1?alt=media&key=K''\<rparr>"
        "''https://v/1?alt=media&key=K''"]
  have dl: "download testEnv (testOp True)
      = Inr (createObjectURL testEnv ''https://v/1?alt=media&key=K'')"
    by (rule fetching) (simp add: link testEnv_def)
  from th still fin
  have "generateVeoVideo testEnv (Some ''AAAA'') ''image/png'' LANDSCAPE
      = Some (case download testEnv (testOp True) of
                Inl err \<Rightarrow> Inl err
              | Inr videoUrl \<Rightarrow> Inr (videoUrl, 3 * pollDelay))"
    by blast
  then have one: "generateVeoVideo testEnv (Some ''AAAA'') ''image/png'' LANDSCAPE
     = Some (Inr (''blob:https://v/1?alt=media&key=K'', 15000))"
    unfolding dl by (simp add: testEnv_def pollDelay_def)
  have "\<forall>n. stillRunning (observed stuckEnv (Some ''AAAA'') ''image/png'' LANDSCAPE) n"
    by (simp add: stillRunning_def observed_def stuckEnv_def testEnv_def testOp_def
        split: nat.split)
  with generateVeoVideo_polls_until_done[of stuckEnv "Some ''AAAA''" "''image/png''" LANDSCAPE]
  have two: "generateVeoVideo stuckEnv (Some ''AAAA'') ''image/png'' LANDSCAPE = None"
    by blast
  from one two show ?thesis by simp
qed

text \<open>
  Claim C8. \<open>generateStory\<close> never resolves with an empty story: when the response's text
  is undefined or empty it resolves with the fallback string, and it resolves with the
  response's text exactly when that text is defined and not empty. A rejected request is
  passed on.
\<close>

theorem generateStory_never_empty:
  "(\<forall>err. generateContent imageBase64 mimeType = Inl err
      \<longrightarrow> generateStory generateContent imageBase64 mimeType = Inl err)
   \<and> (\<forall>text. generateContent imageBase64 mimeType = Inr text
      \<longrightarrow> (\<exists>s. generateStory generateContent imageBase64 mimeType = Inr s \<and> s \<noteq> []
             \<and> (text = None \<or> text = Some [] \<longrightarrow> s = fallbackStory)
             \<and> (Some s = text \<longleftrightarrow> text \<noteq> None \<and> text \<noteq> Some [])))"
  by (auto simp: generateStory_def orElse_def fallbackStory_def split: option.splits)

theorem generateStory_never_empty_witness:
  "generateStory (\<lambda>i m. Inr (Some [])) (Some ''AAAA'') ''image/png'' = Inr fallbackStory
   \<and> generateStory (\<lambda>i m. Inr None) (Some ''AAAA'') ''image/png'' = Inr fallbackStory
   \<and> generateStory (\<lambda>i m. Inr (Some ''Fog.'')) (Some ''AAAA'') ''image/png'' = Inr ''Fog.''
   \<and> generateStory (\<lambda>i m. Inl (Error None)) (Some ''AAAA'') ''image/png'' = Inl (Error None)"
  using generateStory_never_empty[of "\<lambda>i m. Inr (Some [])" "Some ''AAAA''" "''image/png''"]
    generateStory_never_empty[of "\<lambda>i m. Inr None" "Some ''AAAA''" "''image/png''"]
    generateStory_never_empty[of "\<lambda>i m. Inr (Some ''Fog.'')" "Some ''AAAA''" "''image/png''"]
    generateStory_never_empty[of "\<lambda>i m. Inl (Error None)" "Some ''AAAA''" "''image/png''"]
  by auto

section \<open>The progress timer and the guard of handleGenerateVideo\<close>

lemma indexOf_lower: "- 1 \<le> indexOf xs x"
  by (induction xs) (auto simp: Let_def)

lemma indexOf_absent: "x \<notin> set xs \<Longrightarrow> indexOf xs x = - 1"
  by (induction xs) (auto simp: Let_def)

lemma indexOf_nth: "distinct xs \<Longrightarrow> i < length xs \<Longrightarrow> indexOf xs (xs ! i) = int i"
proof (induction xs arbitrary: i)
  case Nil
  then show ?case by simp
next
  case (Cons y ys)
  show ?case
  proof (cases i)
    case 0
    then show ?thesis by simp
  next
    case (Suc j)
    then have j: "j < length ys" using Cons.prems by simp
    then have "ys ! j \<in> set ys" by simp
    then have "y \<noteq> ys ! j" using Cons.prems by auto
    moreover have "indexOf ys (ys ! j) = int j" using Cons.IH j Cons.prems by simp
    ultimately show ?thesis using Suc by (simp add: Let_def)
  qed
qed

lemma msgs_length: "length msgs = 5"
  by (simp add: msgs_def)

lemma msgs_distinct: "distinct msgs"
  by (simp add: msgs_def)

lemma msgs_nonempty: "i < 5 \<Longrightarrow> msgs ! i \<noteq> []"
proof -
  assume "i < 5"
  then consider "i = 0" | "i = 1" | "i = 2" | "i = 3" | "i = 4" by linarith
  then show ?thesis by cases (simp_all add: msgs_def)
qed

lemma nextMsg_at:
  assumes "- 1 \<le> c" "c < 5"
  shows "orElse (at_int msgs (js_rem (c + 1) (int (length msgs)))) (msgs ! 0)
           = msgs ! (nat (c + 1) mod 5)"
proof -
  have r: "js_rem (c + 1) 5 = (c + 1) mod 5"
    using assms by (cases "c + 1 = 0") (simp_all add: js_rem_def sgn_if)
  have n: "nat ((c + 1) mod 5) = nat (c + 1) mod 5"
    using assms by (simp add: nat_mod_distrib)
  have lt: "nat (c + 1) mod 5 < 5" by simp
  show ?thesis
    using msgs_nonempty[OF lt] lt
    by (simp add: msgs_length r at_int_def at_index_def n orElse_def)
qed

text \<open>
  A run of \<open>handleGenerateVideo\<close> that starts a generation starts one timer. The tick
  of that timer is a function of the video state alone. When
  \<open>isGenerating\<close> is false it returns the state it was given. Otherwise it changes only
  \<open>progressMessage\<close>: a message that is in the list of five is replaced by the next one, the
  last by the first, and a message that is not in the list by the first.
\<close>

lemma tick_next_message:
  "(\<not> video_isGenerating prev \<longrightarrow> tick prev = prev)
   \<and> (video_isGenerating prev \<longrightarrow>
        (\<exists>nextMsg. tick prev = prev\<lparr>video_progressMessage := nextMsg\<rparr>
           \<and> (\<forall>i<length msgs. video_progressMessage prev = msgs ! i
                 \<longrightarrow> nextMsg = msgs ! (Suc i mod length msgs))
           \<and> (video_progressMessage prev \<notin> set msgs \<longrightarrow> nextMsg = msgs ! 0)))
   \<and> length msgs = 5 \<and> distinct msgs
   \<and> timers (handleGenerateVideo_start preview file s) = timers s @ [nextTimer s]"
proof -
  let ?c = "indexOf msgs (video_progressMessage prev)"
  let ?m = "msgs ! (nat (?c + 1) mod 5)"
  have idle: "\<not> video_isGenerating prev \<longrightarrow> tick prev = prev"
    by (simp add: tick_def)
  have busy: "tick prev = prev\<lparr>video_progressMessage := ?m\<rparr>" if "video_isGenerating prev"
  proof -
    have "?c < 5"
    proof (cases "video_progressMessage prev \<in> set msgs")
      case True
      then obtain i where "i < length msgs" "msgs ! i = video_progressMessage prev"
        by (auto simp: in_set_conv_nth)
      then show ?thesis using indexOf_nth[OF msgs_distinct, of i] by (simp add: msgs_length)
    next
      case False
      then show ?thesis by (simp add: indexOf_absent)
    qed
    from nextMsg_at[OF indexOf_lower this] that show ?thesis
      by (simp add: tick_def Let_def)
  qed
  have inlist: "?m = msgs ! (Suc i mod length msgs)"
    if "i < length msgs" "video_progressMessage prev = msgs ! i" for i
    using that indexOf_nth[OF msgs_distinct, of i] by (simp add: msgs_length nat_add_distrib)
  have absent: "?m = msgs ! 0" if "video_progressMessage prev \<notin> set msgs"
    using that by (simp add: indexOf_absent)
  have one: "timers (handleGenerateVideo_start preview file s) = timers s @ [nextTimer s]"
    by (simp add: handleGenerateVideo_start_def Let_def)
  show ?thesis
    using idle busy inlist absent msgs_length msgs_distinct one by blast
qed

lemma tick_next_message_example:
  "tick \<lparr>video_url = None, video_isGenerating = True,
         video_progressMessage = ''Almost there...'', video_error = None\<rparr>
     = \<lparr>video_url = None, video_isGenerating = True,
        video_progressMessage = ''Analyzing scene composition...'', video_error = None\<rparr>
   \<and> tick \<lparr>video_url = None, video_isGenerating = True,
         video_progressMessage = ''Initializing Veo...'', video_error = None\<rparr>
     = \<lparr>video_url = None, video_isGenerating = True,
        video_progressMessage = ''Analyzing scene composition...'', video_error = None\<rparr>
   \<and> tick \<lparr>video_url = Some ''blob:1'', video_isGenerating = False,
         video_progressMessage = [], video_error = None\<rparr>
     = \<lparr>video_url = Some ''blob:1'', video_isGenerating = False,
        video_progressMessage = [], video_error = None\<rparr>"
proof -
  let ?last = "\<lparr>video_url = None, video_isGenerating = True,
         video_progressMessage = ''Almost there...'', video_error = None\<rparr>"
  let ?init = "\<lparr>video_url = None, video_isGenerating = True,
         video_progressMessage = ''Initializing Veo...'', video_error = None\<rparr>"
  let ?idle = "\<lparr>video_url = Some ''blob:1'', video_isGenerating = False,
         video_progressMessage = [], video_error = None\<rparr>"
  have four: "(4::nat) < length msgs" "video_progressMessage ?last = msgs ! 4"
    by (simp_all add: msgs_def)
  have out: "video_progressMessage ?init \<notin> set msgs"
    by (simp add: msgs_def)
  have a: "tick ?last = ?last\<lparr>video_progressMessage := msgs ! (Suc 4 mod length msgs)\<rparr>"
  proof -
    from tick_next_message[of ?last "[]" testFile initialState] obtain nextMsg where
      t: "tick ?last = ?last\<lparr>video_progressMessage := nextMsg\<rparr>" and
      n: "\<forall>i<length msgs. video_progressMessage ?last = msgs ! i
            \<longrightarrow> nextMsg = msgs ! (Suc i mod length msgs)"
      by auto
    from n four have "nextMsg = msgs ! (Suc 4 mod length msgs)" by blast
    with t show ?thesis by simp
  qed
  have b: "tick ?init = ?init\<lparr>video_progressMessage := msgs ! 0\<rparr>"
    using tick_next_message[of ?init "[]" testFile initialState] out by auto
  have c: "tick ?idle = ?idle"
    using tick_next_message[of ?idle "[]" testFile initialState] by simp
  show ?thesis
    unfolding a b c by (simp add: msgs_def)
qed

text \<open>
  Claim C9. With no image preview or no selected file, \<open>handleGenerateVideo\<close> returns at
  its first line: the state, which includes the log of calls to the services, the timers
  and the requests in flight, is the one it was given.
\<close>

theorem handleGenerateVideo_requires_image:
  "imagePreview s = None \<or> selectedFile s = None \<Longrightarrow>
     handleGenerateVideo_begin answers s = s
     \<and> calls (handleGenerateVideo_begin answers s) = calls s
     \<and> videoRequests (handleGenerateVideo_begin answers s) = videoRequests s"
  by (auto simp: handleGenerateVideo_begin_def split: option.splits)

theorem handleGenerateVideo_requires_image_witness:
  "imagePreview initialState = None
   \<and> handleGenerateVideo_begin testAnswers initialState = initialState
   \<and> selectedFile (initialState\<lparr>imagePreview := Some ''data:image/png;base64,AAAA''\<rparr>) = None
   \<and> handleGenerateVideo_begin testAnswers (initialState\<lparr>imagePreview := Some ''data:image/png;base64,AAAA''\<rparr>)
       = initialState\<lparr>imagePreview := Some ''data:image/png;base64,AAAA''\<rparr>"
  using handleGenerateVideo_requires_image[of initialState testAnswers]
    handleGenerateVideo_requires_image[of "initialState\<lparr>imagePreview := Some ''data:image/png;base64,AAAA''\<rparr>" testAnswers]
  by (simp add: initialState_def)

section \<open>Upload and narration handlers\<close>

lemma js_split_nonempty: "js_split sep s \<noteq> []"
  by (induction s) (auto split: list.splits)

lemma js_split_no_sep: "sep \<notin> set s \<Longrightarrow> js_split sep s = [s]"
  by (induction s) auto

lemma js_split_at_sep:
  "sep \<notin> set h \<Longrightarrow> js_split sep (h @ sep # d) = h # js_split sep d"
  by (induction h) auto

lemma base64DataOf_dataURL:
  assumes "CHR '','' \<notin> set mt" and "CHR '','' \<notin> set payload"
  shows "base64DataOf (''data:'' @ mt @ '';base64,'' @ payload) = Some payload"
proof -
  have h: "CHR '','' \<notin> set (''data:'' @ mt @ '';base64'')" using assms(1) by simp
  have "''data:'' @ mt @ '';base64,'' @ payload = (''data:'' @ mt @ '';base64'') @ CHR '','' # payload"
    by simp
  then have "js_split CHR '','' (''data:'' @ mt @ '';base64,'' @ payload)
      = (''data:'' @ mt @ '';base64'') # js_split CHR '','' payload"
    using js_split_at_sep[OF h, of payload] by simp
  then show ?thesis
    using js_split_no_sep[OF assms(2)] by (simp add: base64DataOf_def at_index_def)
qed

lemma calls_stopAudio: "calls (stopAudio s) = calls s"
  by (simp add: stopAudio_def Let_def split: option.splits)

lemma calls_onloadend_reset: "calls (onloadend_reset result s) = calls s"
  by (simp add: onloadend_reset_def Let_def calls_stopAudio)

text \<open>
  Claim C3. When the read of a selected file ends with a data URL, the \<open>onloadend\<close> callback
  itself goes on into \<open>handleGenerateStory\<close> with the URL and the file's MIME type, with no
  further event; the handler splits the header off and sends \<open>generateStory\<close> the base64
  data and the MIME type; and when \<open>generateStory\<close> resolves, the story state holds the
  generated text, is not generating and has no error.
\<close>

theorem upload_generates_story:
  assumes "result = ''data:'' @ mt @ '';base64,'' @ payload"
    and "CHR '','' \<notin> set mt" and "CHR '','' \<notin> set payload"
  shows "onloadend file (Some result) s
           = handleGenerateStory_begin result (file_type file) (onloadend_reset (Some result) s)
     \<and> calls (onloadend file (Some result) s)
           = calls s @ [GenerateStory (Some payload) (file_type file)]
     \<and> (\<forall>generatedText.
           generateStory generateContent (Some payload) (file_type file) = Inr generatedText
           \<longrightarrow> story (handleGenerateStory generateContent result (file_type file)
                        (onloadend_reset (Some result) s))
                 = \<lparr>story_text = generatedText, story_isGenerating = False, story_error = None\<rparr>)"
proof -
  have d: "base64DataOf result = Some payload"
    using assms base64DataOf_dataURL by simp
  have a: "onloadend file (Some result) s
           = handleGenerateStory_begin result (file_type file) (onloadend_reset (Some result) s)"
    by (simp add: onloadend_def Let_def)
  have b: "calls (handleGenerateStory_begin result (file_type file) (onloadend_reset (Some result) s))
           = calls s @ [GenerateStory (Some payload) (file_type file)]"
    by (simp add: handleGenerateStory_begin_def Let_def d calls_onloadend_reset)
  have c: "story (handleGenerateStory generateContent result (file_type file) s')
                 = \<lparr>story_text = generatedText, story_isGenerating = False, story_error = None\<rparr>"
    if "generateStory generateContent (Some payload) (file_type file) = Inr generatedText"
    for generatedText s'
    using that by (simp add: handleGenerateStory_def handleGenerateStory_settle_def Let_def d)
  show ?thesis using a b c by simp
qed

theorem upload_generates_story_witness:
  "calls (onloadend testFile (Some ''data:image/png;base64,AAAA'') initialState)
     = [GenerateStory (Some ''AAAA'') ''image/png'']
   \<and> story (handleGenerateStory (\<lambda>i m. Inr (Some ''Fog.'')) ''data:image/png;base64,AAAA''
              (file_type testFile) (onloadend_reset (Some ''data:image/png;base64,AAAA'') initialState))
     = \<lparr>story_text = ''Fog.'', story_isGenerating = False, story_error = None\<rparr>"
proof -
  have r: "''data:image/png;base64,AAAA'' = ''data:'' @ ''image/png'' @ '';base64,'' @ ''AAAA''"
    by simp
  have c: "CHR '','' \<notin> set ''image/png''" "CHR '','' \<notin> set ''AAAA''" by simp_all
  have g: "generateStory (\<lambda>i m. Inr (Some ''Fog.'')) (Some ''AAAA'') (file_type testFile) = Inr ''Fog.''"
    by (simp add: generateStory_def orElse_def)
  have e: "calls initialState = []" by (simp add: initialState_def)
  have t: "file_type testFile = ''image/png''" by (simp add: testFile_def)
  note th = upload_generates_story[OF r c, of testFile initialState "\<lambda>i m. Inr (Some ''Fog.'')"]
  from th have A: "calls (onloadend testFile (Some ''data:image/png;base64,AAAA'') initialState)
      = calls initialState @ [GenerateStory (Some ''AAAA'') (file_type testFile)]"
    by blast
  from th g have B: "story (handleGenerateStory (\<lambda>i m. Inr (Some ''Fog.''))
        ''data:image/png;base64,AAAA'' (file_type testFile)
        (onloadend_reset (Some ''data:image/png;base64,AAAA'') initialState))
      = \<lparr>story_text = ''Fog.'', story_isGenerating = False, story_error = None\<rparr>"
    by blast
  from A B show ?thesis unfolding e t by simp
qed











section \<open>Reachable states of the component\<close>

lemma video_stopAudio: "video (stopAudio s) = video s"
  by (simp add: stopAudio_def Let_def split: option.splits)

lemma video_getAudioContext: "video (getAudioContext s) = video s"
  by (simp add: getAudioContext_def split: option.splits)

lemma video_playBuffer: "video (playBuffer buffer s) = video s"
  by (simp add: playBuffer_def Let_def video_getAudioContext)

lemma video_onloadend: "video (onloadend file result s) = initialVideo"
  by (simp add: onloadend_def onloadend_reset_def handleGenerateStory_begin_def Let_def
      initialVideo_def video_stopAudio split: option.splits)

lemma video_handleApiKeySelect: "video (handleApiKeySelect p c s) = video s"
  by (simp add: handleApiKeySelect_def Let_def split: sum.splits)

lemma videoOk_start: "videoOk (video (handleGenerateVideo_start preview file s))"
  by (simp add: handleGenerateVideo_start_def Let_def videoOk_def)

lemma videoOk_begin:
  "videoOk (video s) \<Longrightarrow> videoOk (video (handleGenerateVideo_begin answers s))"
  by (auto simp: handleGenerateVideo_begin_def Let_def videoOk_start video_handleApiKeySelect
      split: option.splits sum.splits)

lemma videoOk_settle: "videoOk (video (handleGenerateVideo_settle progressTimer settled s))"
  by (simp add: handleGenerateVideo_settle_def Let_def videoOk_def split: sum.splits)

lemma videoOk_tick: "videoOk v \<Longrightarrow> videoOk (tick v)"
  by (simp add: tick_def Let_def videoOk_def)

lemma video_handleReadAloud_begin: "video (handleReadAloud_begin s) = video s"
  by (simp add: handleReadAloud_begin_def Let_def video_stopAudio video_playBuffer
      split: option.splits)

lemma video_handleReadAloud_settle: "video (handleReadAloud_settle settled dec s) = video s"
  by (simp add: handleReadAloud_settle_def handleReadAloud_failed_def Let_def video_playBuffer
      video_getAudioContext split: sum.splits)

lemma videoOk_step: "videoOk (video s) \<Longrightarrow> videoOk (video (step e s))"
proof (cases e)
  case (FileChange files)
  assume "videoOk (video s)"
  then show ?thesis using FileChange by (simp add: handleFileChange_def split: list.splits)
next
  case (LoadEnd f result)
  then show ?thesis by (simp add: video_onloadend initialVideo_def videoOk_def)
next
  case (StorySettled settled)
  assume "videoOk (video s)"
  then show ?thesis using StorySettled
    by (simp add: handleGenerateStory_settle_def Let_def split: sum.splits)
next
  case (ClickGenerateVideo answers)
  assume "videoOk (video s)"
  then show ?thesis using ClickGenerateVideo by (simp add: videoOk_begin)
next
  case (VideoSettled progressTimer settled)
  then show ?thesis by (simp add: videoOk_settle)
next
  case (Tick timer)
  assume "videoOk (video s)"
  then show ?thesis using Tick by (simp add: videoOk_tick)
next
  case ClickReadAloud
  assume "videoOk (video s)"
  then show ?thesis using ClickReadAloud by (simp add: video_handleReadAloud_begin)
next
  case (SpeechSettled settled decoded)
  assume "videoOk (video s)"
  then show ?thesis using SpeechSettled by (simp add: video_handleReadAloud_settle)
qed (simp_all add: onended_def)

lemma videoOk_run:
  "videoOk (video s) \<Longrightarrow> run events s = Some s' \<Longrightarrow> videoOk (video s')"
proof (induction events arbitrary: s)
  case Nil
  then show ?case by simp
next
  case (Cons e es)
  from Cons.prems(2) have "run es (step e s) = Some s'" by (simp split: if_splits)
  with Cons.IH[OF videoOk_step[OF Cons.prems(1)]] show ?case .
qed

text \<open>
  Claim C4. In every state that the component reaches from its initial state, by any
  sequence of events (clicks, file reads, settled requests, timer ticks), the video state
  is not generating and holding a url at the same time.
\<close>

theorem video_generating_excludes_ready:
  "run events initialState = Some s \<Longrightarrow>
     \<not> (video_isGenerating (video s) \<and> video_url (video s) \<noteq> None)"
proof -
  assume r: "run events initialState = Some s"
  have "videoOk (video initialState)"
    by (simp add: initialState_def initialVideo_def videoOk_def)
  from videoOk_run[OF this r] show ?thesis by (simp add: videoOk_def)
qed

lemmas handler_defs =
  initialState_def initialStory_def initialVideo_def initialAudio_def
  getAudioContext_def playBuffer_def stopAudio_def onended_def base64DataOf_def
  handleGenerateStory_begin_def handleGenerateStory_settle_def handleFileChange_def
  onloadend_reset_def onloadend_def handleApiKeySelect_def handleGenerateVideo_start_def
  handleGenerateVideo_begin_def handleGenerateVideo_settle_def handleReadAloud_begin_def
  handleReadAloud_failed_def handleReadAloud_settle_def truthy_def at_index_def
  testFile_def otherFile_def thirdFile_def testAnswers_def messageOrEmpty_def Let_def

lemma videoSession_runs:
  "\<exists>s. run videoSession initialState = Some s \<and> video_url (video s) = Some ''blob:1''"
  by (simp add: videoSession_def handler_defs)

theorem video_generating_excludes_ready_witness:
  "\<exists>s. run videoSession initialState = Some s \<and> video_url (video s) = Some ''blob:1''
        \<and> \<not> video_isGenerating (video s)"
proof -
  from videoSession_runs obtain s where
    s: "run videoSession initialState = Some s" "video_url (video s) = Some ''blob:1''"
    by blast
  from video_generating_excludes_ready[OF s(1)] s(2) have "\<not> video_isGenerating (video s)"
    by simp
  with s show ?thesis by blast
qed

text \<open>What \<open>stopAudio\<close> does: it reaches the tracked source only.\<close>

lemma stopAudio_tracked_source:
  "audioSourceRef (stopAudio s) = None
   \<and> \<not> audio_isPlaying (audio (stopAudio s))
   \<and> sources (stopAudio s)
       = (case audioSourceRef s of
            None \<Rightarrow> sources s
          | Some source \<Rightarrow> filter (\<lambda>p. fst p \<noteq> source) (sources s))"
  by (simp add: stopAudio_def Let_def split: option.splits)

text \<open>
  What \<open>playBuffer\<close> does: the new source is added to the ones that are playing and
  replaces the tracked one; nothing is stopped.
\<close>

lemma playBuffer_keeps_sources:
  "sources (playBuffer buffer s) = sources s @ [(nextSource s, buffer)]
   \<and> audioSourceRef (playBuffer buffer s) = Some (nextSource s)
   \<and> audio_isPlaying (audio (playBuffer buffer s))"
  by (simp add: playBuffer_def getAudioContext_def Let_def split: option.splits)

text \<open>
  Claim C5. At most one audio source plays at a time. The code does not keep this when two
  speech requests overlap: a narration is requested, a second image is loaded while the
  request is in flight (which resets the audio state and enables the button again once
  the new story has arrived), the narration of the new story is requested, and both
  requests resolve. Each resolution calls \<open>playBuffer\<close>, which starts a source without
  stopping the one before. Two sources are then playing, and only the second is tracked.
\<close>

theorem two_sources_play_at_once:
  "map_option sources (run overlappingNarrations initialState) = Some [(0, [1]), (1, [2])]
   \<and> map_option audioSourceRef (run overlappingNarrations initialState) = Some (Some 1)"
  by (simp add: overlappingNarrations_def handler_defs)

text \<open>What the \<open>onloadend\<close> callback resets before the story is generated.\<close>

lemma onloadend_reset_initial:
  "story (onloadend_reset result s) = initialStory
   \<and> video (onloadend_reset result s) = initialVideo
   \<and> audio (onloadend_reset result s) = initialAudio
   \<and> imagePreview (onloadend_reset result s) = result
   \<and> audioSourceRef (onloadend_reset result s) = None
   \<and> sources (onloadend_reset result s)
       = (case audioSourceRef s of
            None \<Rightarrow> sources s
          | Some source \<Rightarrow> filter (\<lambda>p. fst p \<noteq> source) (sources s))
   \<and> calls (onloadend_reset result s) = calls s"
  by (simp add: onloadend_reset_def stopAudio_def initialStory_def initialVideo_def
      initialAudio_def Let_def split: option.splits)

text \<open>
  Claim C7. When a new file is read, the story, video and audio states are reset and any
  playing audio is stopped before the new story is generated. The states are reset, but
  after the overlapping narrations above the upload of a third image stops only the tracked
  source: the audio state is the initial one while the first source is still playing.
\<close>

theorem upload_leaves_a_source_playing:
  "map_option sources (run (overlappingNarrations @ nextUpload) initialState) = Some [(0, [1])]
   \<and> map_option audio (run (overlappingNarrations @ nextUpload) initialState) = Some initialAudio"
  by (simp add: overlappingNarrations_def nextUpload_def handler_defs)

section \<open>Repeated requests and leftover timers\<close>


text \<open>
  A request can also be repeated while one for the same story is in flight: the failure of
  an older request clears \<open>isGenerating\<close>, which enables the button. Both requests then
  resolve and both narrations play.
\<close>

lemma two_requests_resolve_for_one_story:
  "map_option calls (run twoRequestsOneStory initialState)
     = Some [GenerateStory (Some ''AAAA'') ''image/png'', GenerateSpeech ''Fog.'',
             GenerateStory (Some ''BBBB'') ''image/jpeg'',
             GenerateSpeech ''Tide.'', GenerateSpeech ''Tide.'']
   \<and> map_option sources (run twoRequestsOneStory initialState) = Some [(0, [1]), (1, [2])]"
  by (simp add: twoRequestsOneStory_def handler_defs)

text \<open>
  Claim C6. Video-generation progress is driven by a single timer. The code does not keep
  this: the timer is cleared on the success path only, so the timer of a generation that
  failed stays live. After a failure and a second click two timers are live, and the ticks
  of both advance the message of the one generation that is running. A generation that
  succeeds leaves no timer.
\<close>

theorem two_timers_drive_one_generation:
  "map_option timers (run retryAfterFailure initialState) = Some [0, 1]
   \<and> map_option (video_isGenerating \<circ> video) (run retryAfterFailure initialState) = Some True
   \<and> map_option (video_progressMessage \<circ> video) (run (retryAfterFailure @ [Tick 0]) initialState)
       = Some ''Analyzing scene composition...''
   \<and> map_option (video_progressMessage \<circ> video)
        (run (retryAfterFailure @ [Tick 0, Tick 1]) initialState)
       = Some ''Dreaming up motion vectors...''
   \<and> map_option timers (run videoSession initialState) = Some []"
  by (simp add: retryAfterFailure_def videoSession_def handler_defs tick_def msgs_def
      orElse_def at_int_def js_rem_def)

end
